theory Spec2Isabelle
  imports Complex_Main "HOL-Library.Multiset" "HOL-Library.Product_Lexorder"
begin

section \<open>Data model of the accessibility scanner\<close>

text \<open>
  The scanner (\<^verbatim>\<open>ComprehensiveMobileAccessibilityScanner\<close> in
  \<^verbatim>\<open>src/mobileAccessibility.py\<close>) works on Python dictionaries. The dictionaries with a
  fixed set of keys (element records, findings, the severity summary) are records here;
  the dictionaries whose keys come from configuration (a rule definition, the rule
  catalog) are maps.

  Bounds are 4-tuples of Python integers \<open>(x1, y1, x2, y2)\<close>.
\<close>

type_synonym rect = "int \<times> int \<times> int \<times> int"

text \<open>The exceptions that the modelled code can raise.\<close>

datatype py_error =
  TypeError | KeyError | ValueError | AttributeError
  | FileNotFoundError | PermissionError | JSONDecodeError

text \<open>
  Values found in a rule definition (the values of a JSON object, as \<^verbatim>\<open>json.load\<close>
  gives them): \<^verbatim>\<open>None\<close>, booleans, integers, strings, lists (JSON arrays) and dicts
  (JSON objects, whose keys are strings, in the order of the document). Floats (the
  contrast threshold) are read by the pixel-based check only, which is not modelled, and
  are left out.
\<close>

datatype val = VNone | VBool bool | VInt int | VStr string
  | VList "val list" | VDict "(string \<times> val) list"

type_synonym rule_config = "string \<rightharpoonup> val"
type_synonym rules = "string \<rightharpoonup> rule_config"

text \<open>
  The \<^verbatim>\<open>element_data\<close> dictionary built by \<^verbatim>\<open>analyze_accessibility\<close> for each node
  (the reference to the XML node itself is left out).
\<close>

record element =
  e_bounds :: "rect option"
  e_text :: string
  e_content_desc :: string
  e_clickable :: bool
  e_focusable :: bool
  e_long_clickable :: bool
  e_checkable :: bool
  e_checked :: bool
  e_class :: string
  e_resource_id :: string
  e_package :: string
  e_xpath :: string

text \<open>
  The \<^verbatim>\<open>"bounds"\<close> entry of a finding: the key may be missing from the dictionary, it may
  hold \<^verbatim>\<open>None\<close> (the element had no parsable bounds), or it holds a 4-tuple.
\<close>

datatype bounds_entry = NoKey | Null | Rect rect

record finding =
  f_rule :: string
  f_priority :: val
  f_message :: string
  f_bounds :: bounds_entry
  f_xpath :: string
  f_resource_id :: string
  f_guideline :: string

definition entry_of :: "rect option \<Rightarrow> bounds_entry" where
  "entry_of b = (case b of None \<Rightarrow> Null | Some r \<Rightarrow> Rect r)"

section \<open>Geometric checks\<close>

subsection \<open>\<^verbatim>\<open>elements_overlap\<close>\<close>

text \<open>
  \<^verbatim>\<open>
  x1, y1, x2, y2 = bounds1
  x3, y3, x4, y4 = bounds2
  overlap_x = not (x2 < x3 or x4 < x1)
  overlap_y = not (y2 < y3 or y4 < y1)
  return overlap_x and overlap_y
  \<close>
\<close>

fun elements_overlap :: "rect \<Rightarrow> rect \<Rightarrow> bool" where
  "elements_overlap (x1, y1, x2, y2) (x3, y3, x4, y4) =
     (let overlap_x = \<not> (x2 < x3 \<or> x4 < x1);
          overlap_y = \<not> (y2 < y3 \<or> y4 < y1)
      in overlap_x \<and> overlap_y)"

section \<open>Scoring (\<^verbatim>\<open>generate_report\<close>)\<close>

text \<open>
  \<^verbatim>\<open>
  summary = {"critical":0,"high":0,"medium":0,"low":0}
  for i in issues:
      p = i.get("priority")
      if p in summary: summary[p] += 1
  total_issues = len(issues)
  weighted_sum = summary["critical"]*3 + summary["high"]*2 + summary["medium"]*1 + summary["low"]*0.5
  audit_score = 100 if total_issues == 0 else max(0, 100 - int((weighted_sum/max(total_issues, 1))*20))
  \<close>
  The summary dictionary has four fixed keys, so it is a record. The test
  \<^verbatim>\<open>p in summary\<close> hashes \<^verbatim>\<open>p\<close>: a list or a dict is unhashable and the test raises
  \<^verbatim>\<open>TypeError\<close>, which nothing in \<^verbatim>\<open>generate_report\<close> catches. Any other value is in the
  dictionary exactly when it is one of the four key strings; a different string, a
  number, a boolean or \<^verbatim>\<open>None\<close> is not, and the finding is skipped.

  \<^verbatim>\<open>weighted_sum\<close> is a Python float, an exact multiple of one half. Python rounds
  the quotient and the product by 20 to doubles; the model computes both with exact
  rationals and does not round. \<^verbatim>\<open>int\<close> truncates towards zero.
\<close>

record summary =
  critical :: nat
  high :: nat
  medium :: nat
  low :: nat

definition hashable :: "val \<Rightarrow> bool" where
  "hashable v = (case v of VList items \<Rightarrow> False | VDict members \<Rightarrow> False | _ \<Rightarrow> True)"

definition count_priority :: "val \<Rightarrow> summary \<Rightarrow> py_error + summary" where
  "count_priority p s =
     (if \<not> hashable p then Inl TypeError
      else if p = VStr ''critical'' then Inr (s\<lparr>critical := critical s + 1\<rparr>)
      else if p = VStr ''high'' then Inr (s\<lparr>high := high s + 1\<rparr>)
      else if p = VStr ''medium'' then Inr (s\<lparr>medium := medium s + 1\<rparr>)
      else if p = VStr ''low'' then Inr (s\<lparr>low := low s + 1\<rparr>)
      else Inr s)"

fun summarize :: "finding list \<Rightarrow> summary \<Rightarrow> py_error + summary" where
  "summarize [] s = Inr s"
| "summarize (i # issues) s =
     (case count_priority (f_priority i) s of
        Inl err \<Rightarrow> Inl err
      | Inr s' \<Rightarrow> summarize issues s')"

definition py_int :: "rat \<Rightarrow> int" where
  "py_int x = (if 0 \<le> x then \<lfloor>x\<rfloor> else \<lceil>x\<rceil>)"

definition weighted_sum :: "summary \<Rightarrow> rat" where
  "weighted_sum s =
     of_nat (critical s) * 3 + of_nat (high s) * 2 + of_nat (medium s) * 1
       + of_nat (low s) * (1 / 2)"

definition audit_score :: "finding list \<Rightarrow> py_error + int" where
  "audit_score issues =
     (case summarize issues \<lparr>critical = 0, high = 0, medium = 0, low = 0\<rparr> of
        Inl err \<Rightarrow> Inl err
      | Inr summary \<Rightarrow>
          (let total_issues = length issues
           in Inr (if total_issues = 0 then 100
                   else max 0 (100 - py_int ((weighted_sum summary
                                              / of_nat (max total_issues 1)) * 20)))))"

text \<open>
  The specification's reading of the same computation, for comparison with the loop
  above: the weight of one finding, the sum of the weights of a list, the number of
  findings of one priority, and the score as a function of the mean weight.
\<close>

definition weight :: "val \<Rightarrow> rat" where
  "weight p =
     (if p = VStr ''critical'' then 3
      else if p = VStr ''high'' then 2
      else if p = VStr ''medium'' then 1
      else if p = VStr ''low'' then 1 / 2
      else 0)"

definition total_weight :: "finding list \<Rightarrow> rat" where
  "total_weight issues = (\<Sum>i\<leftarrow>issues. weight (f_priority i))"

definition count_of :: "string \<Rightarrow> finding list \<Rightarrow> nat" where
  "count_of p issues = length (filter (\<lambda>i. f_priority i = VStr p) issues)"


definition spec_score :: "finding list \<Rightarrow> int" where
  "spec_score issues =
     (if issues = [] then 100
      else max 0 (100 - \<lfloor>total_weight issues / of_nat (length issues) * 20\<rfloor>))"


definition sample_finding :: "string \<Rightarrow> finding" where
  "sample_finding p = \<lparr>f_rule = ''r'', f_priority = VStr p, f_message = [], f_bounds = Null,
           f_xpath = [], f_resource_id = [], f_guideline = []\<rparr>"

section \<open>Deduplication (\<^verbatim>\<open>analyze_accessibility\<close>)\<close>

text \<open>
  The last loop of \<^verbatim>\<open>analyze_accessibility\<close>:
  \<^verbatim>\<open>
  unique = []
  seen = set()
  for i in issues:
      key = (tuple(i.get("bounds", ())), i["rule"])
      if key not in seen:
          unique.append(i)
          seen.add(key)
  return unique
  \<close>
  \<^verbatim>\<open>i.get("bounds", ())\<close> is the empty tuple only when the key is missing. When the key
  is there and holds \<^verbatim>\<open>None\<close>, \<^verbatim>\<open>tuple(None)\<close> raises \<^verbatim>\<open>TypeError\<close>; nothing
  around the loop catches it.
\<close>

definition dedup_key :: "finding \<Rightarrow> py_error + (int list \<times> string)" where
  "dedup_key i =
     (case f_bounds i of
        NoKey \<Rightarrow> Inr ([], f_rule i)
      | Null \<Rightarrow> Inl TypeError
      | Rect (x1, y1, x2, y2) \<Rightarrow> Inr ([x1, y1, x2, y2], f_rule i))"

fun dedup_loop ::
  "finding list \<Rightarrow> finding list \<Rightarrow> (int list \<times> string) set \<Rightarrow> py_error + finding list"
where
  "dedup_loop [] unique seen = Inr unique"
| "dedup_loop (i # issues) unique seen =
     (case dedup_key i of
        Inl e \<Rightarrow> Inl e
      | Inr key \<Rightarrow>
          if key \<notin> seen then dedup_loop issues (unique @ [i]) (insert key seen)
          else dedup_loop issues unique seen)"

definition deduplicate :: "finding list \<Rightarrow> py_error + finding list" where
  "deduplicate issues = dedup_loop issues [] {}"

text \<open>Python's \<^verbatim>\<open>sub in s\<close> on strings.\<close>

fun starts_with :: "string \<Rightarrow> string \<Rightarrow> bool" where
  "starts_with [] s = True"
| "starts_with (p # ps) [] = False"
| "starts_with (p # ps) (c # cs) = (p = c \<and> starts_with ps cs)"

fun contains :: "string \<Rightarrow> string \<Rightarrow> bool" where
  "contains sub [] = (sub = [])"
| "contains sub (c # cs) = (starts_with sub (c # cs) \<or> contains sub cs)"

text \<open>
  \<^verbatim>\<open>self.rules[rule_id].get("priority", default)\<close>: a \<^verbatim>\<open>KeyError\<close> when the catalog has
  no entry for the rule.
\<close>

definition rule_priority :: "rules \<Rightarrow> string \<Rightarrow> val \<Rightarrow> py_error + val" where
  "rule_priority rules rule_id dflt =
     (case rules rule_id of
        None \<Rightarrow> Inl KeyError
      | Some rule \<Rightarrow> Inr (case rule ''priority'' of None \<Rightarrow> dflt | Some p \<Rightarrow> p))"

text \<open>
  \<^verbatim>\<open>check_text_alternatives\<close>, one of the checks whose findings carry the bounds of the
  element as they are, \<^verbatim>\<open>None\<close> included:
  \<^verbatim>\<open>
  for element in all_elements:
      class_name = element["class"]
      if "ImageView" in class_name and not element["content_desc"] and not element["text"]:
          issues.append({
              "rule": "text-alternatives",
              "priority": self.rules["text-alternatives"].get("priority", "critical"),
              "message": "Image element missing text alternative (content description)",
              "bounds": element["bounds"],
              "xpath": element["xpath"],
              "resource_id": element["resource_id"],
              "guideline": "WCAG 1.1.1 - Non-text Content"
          })
  \<close>
\<close>

fun text_alternatives_loop ::
  "rules \<Rightarrow> element list \<Rightarrow> finding list \<Rightarrow> py_error + finding list"
where
  "text_alternatives_loop rules [] issues = Inr issues"
| "text_alternatives_loop rules (element # all_elements) issues =
     (if contains ''ImageView'' (e_class element)
         \<and> e_content_desc element = [] \<and> e_text element = []
      then (case rule_priority rules ''text-alternatives'' (VStr ''critical'') of
              Inl err \<Rightarrow> Inl err
            | Inr p \<Rightarrow>
                text_alternatives_loop rules all_elements
                  (issues @
                    [\<lparr>f_rule = ''text-alternatives'', f_priority = p,
                      f_message = ''Image element missing text alternative (content description)'',
                      f_bounds = entry_of (e_bounds element),
                      f_xpath = e_xpath element,
                      f_resource_id = e_resource_id element,
                      f_guideline = ''WCAG 1.1.1 - Non-text Content''\<rparr>]))
      else text_alternatives_loop rules all_elements issues)"

definition check_text_alternatives :: "rules \<Rightarrow> element list \<Rightarrow> py_error + finding list" where
  "check_text_alternatives rules all_elements = text_alternatives_loop rules all_elements []"

text \<open>
  Concrete inputs: the element built for an image node that has no \<^verbatim>\<open>bounds\<close> attribute,
  a catalog with the rule \<^verbatim>\<open>text-alternatives\<close>, and a finding with bounds.
\<close>

definition image_without_bounds :: element where
  "image_without_bounds =
     \<lparr>e_bounds = None, e_text = [], e_content_desc = [], e_clickable = False,
      e_focusable = False, e_long_clickable = False, e_checkable = False, e_checked = False,
      e_class = ''android.widget.ImageView'', e_resource_id = [], e_package = [],
      e_xpath = []\<rparr>"

definition sample_rules :: rules where
  "sample_rules =
     [''text-alternatives'' \<mapsto> [''enabled'' \<mapsto> VBool True, ''priority'' \<mapsto> VStr ''critical'']]"

definition located :: "string \<Rightarrow> rect \<Rightarrow> string \<Rightarrow> finding" where
  "located r b m = \<lparr>f_rule = r, f_priority = VStr ''high'', f_message = m, f_bounds = Rect b,
           f_xpath = [], f_resource_id = [], f_guideline = []\<rparr>"

section \<open>Target size (\<^verbatim>\<open>_check_target_size\<close>)\<close>

text \<open>
  \<^verbatim>\<open>
  def _check_target_size(self, all_elements, rule_id, guideline):
      issues = []
      min_size = self.rules[rule_id].get("min_size", 44)
      for element in all_elements:
          if element["bounds"] and element["clickable"]:
              x1, y1, x2, y2 = element["bounds"]
              width = x2 - x1
              height = y2 - y1
              if width < min_size or height < min_size:
                  issues.append({
                      "rule": rule_id,
                      "priority": self.rules[rule_id].get("priority", "high"),
                      "message": "Touch target too small " + str(width) + "x" + str(height)
                                 + "px (minimum " + str(min_size) + "x" + str(min_size) + "px)",
                      "bounds": element["bounds"],
                      "xpath": element["xpath"],
                      "resource_id": element["resource_id"],
                      "guideline": guideline
                  })
      return issues
  \<close>
  \<^verbatim>\<open>min_size\<close> comes from the rule definition and can be any JSON value. Comparing an
  integer with an integer or a boolean (\<^verbatim>\<open>False\<close> is 0, \<^verbatim>\<open>True\<close> is 1) succeeds; comparing
  it with \<^verbatim>\<open>None\<close>, a string, a list or a dict raises \<^verbatim>\<open>TypeError\<close>.
\<close>

text \<open>Python's \<^verbatim>\<open>str\<close> on integers.\<close>

function str_nat :: "nat \<Rightarrow> string" where
  "str_nat n =
     (if n < 10 then [''0123456789'' ! n]
      else str_nat (n div 10) @ [''0123456789'' ! (n mod 10)])"
  by pat_completeness auto
termination
  by (relation "measure id") auto

declare str_nat.simps [simp del]

definition str_int :: "int \<Rightarrow> string" where
  "str_int i = (if i < 0 then CHR ''-'' # str_nat (nat (- i)) else str_nat (nat i))"

text \<open>
  Python's \<^verbatim>\<open>repr\<close> and \<^verbatim>\<open>str\<close> on the values of a rule definition. \<^verbatim>\<open>repr\<close> of a
  string puts it in single quotes, or in double quotes when it holds a single quote and
  no double quote, and escapes the quote, the backslash and the characters that are not
  printable (of those below 256: the control characters, 127 to 160 and 173). \<^verbatim>\<open>str\<close>
  of a string is the string, and \<^verbatim>\<open>str\<close> of another value is its \<^verbatim>\<open>repr\<close>; a list and
  a dict show the \<^verbatim>\<open>repr\<close> of their members.
\<close>

definition repr_char :: "char \<Rightarrow> char \<Rightarrow> string" where
  "repr_char quote c =
     (let n = (of_char c :: nat) in
      if c = quote \<or> c = CHR 0x5C then [CHR 0x5C, c]
      else if n = 9 then [CHR 0x5C, CHR ''t'']
      else if n = 10 then [CHR 0x5C, CHR ''n'']
      else if n = 13 then [CHR 0x5C, CHR ''r'']
      else if n < 32 \<or> n = 127 \<or> (128 \<le> n \<and> n \<le> 160) \<or> n = 173
      then [CHR 0x5C, CHR ''x'', ''0123456789abcdef'' ! (n div 16), ''0123456789abcdef'' ! (n mod 16)]
      else [c])"

definition repr_str :: "string \<Rightarrow> string" where
  "repr_str s =
     (let quote = (if CHR 0x27 \<in> set s \<and> CHR 0x22 \<notin> set s then CHR 0x22 else CHR 0x27)
      in [quote] @ concat (map (repr_char quote) s) @ [quote])"

fun py_repr :: "val \<Rightarrow> string"
  and repr_items :: "val list \<Rightarrow> string"
  and repr_members :: "(string \<times> val) list \<Rightarrow> string"
where
  "py_repr VNone = ''None''"
| "py_repr (VBool b) = (if b then ''True'' else ''False'')"
| "py_repr (VInt i) = str_int i"
| "py_repr (VStr s) = repr_str s"
| "py_repr (VList items) = ''['' @ repr_items items @ '']''"
| "py_repr (VDict members) = ''{'' @ repr_members members @ ''}''"
| "repr_items [] = []"
| "repr_items [v] = py_repr v"
| "repr_items (v # w # items) = py_repr v @ '', '' @ repr_items (w # items)"
| "repr_members [] = []"
| "repr_members [(k, v)] = repr_str k @ '': '' @ py_repr v"
| "repr_members ((k, v) # m # members) =
     repr_str k @ '': '' @ py_repr v @ '', '' @ repr_members (m # members)"












text \<open>Concrete inputs: a clickable button of a given size, and a catalog with the rule.\<close>

definition button :: "int \<Rightarrow> int \<Rightarrow> element" where
  "button w h =
     \<lparr>e_bounds = Some (10, 20, 10 + w, 20 + h), e_text = ''OK'', e_content_desc = [],
      e_clickable = True, e_focusable = True, e_long_clickable = False, e_checkable = False,
      e_checked = False, e_class = ''android.widget.Button'', e_resource_id = ''id/ok'',
      e_package = ''app'', e_xpath = ''//Button[@resource-id='' @ [CHR 0x27] @ ''id/ok'' @ [CHR 0x27] @ '']''\<rparr>"



section \<open>Focus order (\<^verbatim>\<open>check_focus_order\<close>)\<close>

text \<open>
  \<^verbatim>\<open>
  def check_focus_order(self, all_elements, clickable_elements, focusable_elements, ...):
      issues = []
      focusable_with_bounds = [e for e in focusable_elements if e["bounds"]]
      focusable_with_bounds.sort(key=lambda e: (e["bounds"][1], e["bounds"][0]))
      for i in range(1, len(focusable_with_bounds)):
          prev = focusable_with_bounds[i-1]
          curr = focusable_with_bounds[i]
          if self.has_illogical_focus_order(prev, curr):
              issues.append({
                  "rule": "focus-order",
                  "priority": self.rules["focus-order"].get("priority", "high"),
                  "message": "Potential illogical focus order between elements",
                  "bounds": curr["bounds"],
                  "xpath": curr["xpath"],
                  "resource_id": curr["resource_id"],
                  "guideline": "WCAG 2.4.3 - Focus Order"
              })
      return issues

  def has_illogical_focus_order(self, prev_element, curr_element):
      prev_bounds = prev_element["bounds"]
      curr_bounds = curr_element["bounds"]
      return curr_bounds[1] < prev_bounds[1] - 100
  \<close>
  Subscripting \<^verbatim>\<open>None\<close> raises \<^verbatim>\<open>TypeError\<close>. \<^verbatim>\<open>list.sort\<close> computes the key of every
  element first, then sorts stably by the keys; tuples of integers are compared
  lexicographically.
\<close>

definition has_illogical_focus_order :: "element \<Rightarrow> element \<Rightarrow> py_error + bool" where
  "has_illogical_focus_order prev_element curr_element =
     (case e_bounds prev_element of
        None \<Rightarrow> Inl TypeError
      | Some (px1, py1, px2, py2) \<Rightarrow>
          (case e_bounds curr_element of
             None \<Rightarrow> Inl TypeError
           | Some (cx1, cy1, cx2, cy2) \<Rightarrow> Inr (cy1 < py1 - 100)))"

text \<open>The sort key \<^verbatim>\<open>(e["bounds"][1], e["bounds"][0])\<close>.\<close>

definition focus_key :: "element \<Rightarrow> (int \<times> int) option" where
  "focus_key e =
     (case e_bounds e of
        None \<Rightarrow> None
      | Some (x1, y1, x2, y2) \<Rightarrow> Some (y1, x1))"

fun keys_of :: "element list \<Rightarrow> (int \<times> int) list option" where
  "keys_of [] = Some []"
| "keys_of (e # es) =
     (case focus_key e of
        None \<Rightarrow> None
      | Some k \<Rightarrow> (case keys_of es of None \<Rightarrow> None | Some ks \<Rightarrow> Some (k # ks)))"

definition sort_by_position :: "element list \<Rightarrow> py_error + element list" where
  "sort_by_position es =
     (case keys_of es of
        None \<Rightarrow> Inl TypeError
      | Some ks \<Rightarrow> Inr (map snd (sort_key fst (zip ks es))))"

text \<open>The loop over the consecutive pairs \<open>(prev, curr)\<close> of the sorted list.\<close>

fun focus_order_loop :: "rules \<Rightarrow> element list \<Rightarrow> finding list \<Rightarrow> py_error + finding list" where
  "focus_order_loop rules (prev_element # curr_element # remaining) issues =
     (case has_illogical_focus_order prev_element curr_element of
        Inl err \<Rightarrow> Inl err
      | Inr False \<Rightarrow> focus_order_loop rules (curr_element # remaining) issues
      | Inr True \<Rightarrow>
          (case rule_priority rules ''focus-order'' (VStr ''high'') of
             Inl err \<Rightarrow> Inl err
           | Inr priority \<Rightarrow>
               focus_order_loop rules (curr_element # remaining)
                 (issues @
                   [\<lparr>f_rule = ''focus-order'', f_priority = priority,
                     f_message = ''Potential illogical focus order between elements'',
                     f_bounds = entry_of (e_bounds curr_element),
                     f_xpath = e_xpath curr_element,
                     f_resource_id = e_resource_id curr_element,
                     f_guideline = ''WCAG 2.4.3 - Focus Order''\<rparr>])))"
| "focus_order_loop rules [] issues = Inr issues"
| "focus_order_loop rules [e] issues = Inr issues"

definition check_focus_order :: "rules \<Rightarrow> element list \<Rightarrow> py_error + finding list" where
  "check_focus_order rules focusable_elements =
     (let focusable_with_bounds = filter (\<lambda>e. e_bounds e \<noteq> None) focusable_elements in
      case sort_by_position focusable_with_bounds of
        Inl err \<Rightarrow> Inl err
      | Inr sorted_elements \<Rightarrow> focus_order_loop rules sorted_elements [])"

text \<open>
  A focusable element whose top left corner is at \<open>(x, y)\<close>. The test
  \<^verbatim>\<open>has_illogical_focus_order\<close> itself can succeed: it does on an element 400 pixels above
  the previous one.
\<close>

definition focusable_at :: "int \<Rightarrow> int \<Rightarrow> element" where
  "focusable_at x y = (button 50 50)\<lparr>e_bounds := Some (x, y, x + 50, y + 50)\<rparr>"

section \<open>Rule catalog (\<^verbatim>\<open>load_rules_config\<close>)\<close>

text \<open>
  \<^verbatim>\<open>
  def load_rules_config(self, rules_config):
      if rules_config is None:
          return self.default_rules
      if isinstance(rules_config, str):
          try:
              with open(rules_config, 'r') as f:
                  custom_rules = json.load(f)
          except FileNotFoundError:
              print("Rules config file not found: " + rules_config + ", using defaults")
              return self.default_rules
      else:
          custom_rules = rules_config
      merged_rules = self.default_rules.copy()
      for rule_id, rule_config in custom_rules.items():
          if rule_id in merged_rules:
              merged_rules[rule_id].update(rule_config)
          else:
              merged_rules[rule_id] = rule_config
      return merged_rules
  \<close>
  The constructor calls it without a handler of its own:
  \<^verbatim>\<open>self.rules = self.load_rules_config(rules_config)\<close>.

  The override document is a JSON object whose members are rule definitions (an
  association list in the order of the document, with one entry per key), or another
  JSON value, which has no \<^verbatim>\<open>items\<close> method (an object with a member that is not
  itself an object is not represented). A file is missing (\<^verbatim>\<open>open\<close> raises
  \<^verbatim>\<open>FileNotFoundError\<close>), not readable (\<^verbatim>\<open>PermissionError\<close>), holds text that is not
  JSON (\<^verbatim>\<open>json.load\<close> raises \<^verbatim>\<open>JSONDecodeError\<close>), or holds a document. The only
  handler is the one for \<^verbatim>\<open>FileNotFoundError\<close>.
\<close>

datatype document = JObject "(string \<times> rule_config) list" | JOther

datatype file_state = NoSuchFile | NoPermission | NotJson | Json document

type_synonym file_system = "string \<Rightarrow> file_state"

text \<open>The argument \<^verbatim>\<open>rules_config\<close>: \<^verbatim>\<open>None\<close>, a path, or a value given directly.\<close>

datatype rules_source = NoConfig | Path string | Given document

text \<open>\<^verbatim>\<open>with open(rules_config, 'r') as f: custom_rules = json.load(f)\<close>\<close>

definition read_json :: "file_system \<Rightarrow> string \<Rightarrow> py_error + document" where
  "read_json fs path =
     (case fs path of
        NoSuchFile \<Rightarrow> Inl FileNotFoundError
      | NoPermission \<Rightarrow> Inl PermissionError
      | NotJson \<Rightarrow> Inl JSONDecodeError
      | Json d \<Rightarrow> Inr d)"

text \<open>The merge loop; \<^verbatim>\<open>update\<close> overwrites the supplied fields and keeps the others.\<close>

fun merge_loop :: "(string \<times> rule_config) list \<Rightarrow> rules \<Rightarrow> rules" where
  "merge_loop [] merged_rules = merged_rules"
| "merge_loop ((rule_id, rule_config) # items) merged_rules =
     merge_loop items
       (case merged_rules rule_id of
          Some existing \<Rightarrow> merged_rules(rule_id \<mapsto> existing ++ rule_config)
        | None \<Rightarrow> merged_rules(rule_id \<mapsto> rule_config))"

definition merge_rules :: "rules \<Rightarrow> document \<Rightarrow> py_error + rules" where
  "merge_rules default_rules custom_rules =
     (case custom_rules of
        JOther \<Rightarrow> Inl AttributeError
      | JObject items \<Rightarrow> Inr (merge_loop items default_rules))"

definition load_rules_config :: "rules \<Rightarrow> file_system \<Rightarrow> rules_source \<Rightarrow> py_error + rules" where
  "load_rules_config default_rules fs rules_config =
     (case rules_config of
        NoConfig \<Rightarrow> Inr default_rules
      | Path path \<Rightarrow>
          (case read_json fs path of
             Inl err \<Rightarrow> (if err = FileNotFoundError then Inr default_rules else Inl err)
           | Inr custom_rules \<Rightarrow> merge_rules default_rules custom_rules)
      | Given custom_rules \<Rightarrow> merge_rules default_rules custom_rules)"

text \<open>
  Concrete inputs: a directory that holds one file, \<^verbatim>\<open>rules.json\<close>, whose text is not
  JSON (for instance \<^verbatim>\<open>{"touch-target-size": \<close> cut off there).
\<close>

definition broken_config_dir :: file_system where
  "broken_config_dir path = (if path = ''rules.json'' then NotJson else NoSuchFile)"



section \<open>Element records and identity paths (\<^verbatim>\<open>get_formatted_xpath\<close>)\<close>

text \<open>
  A \<^verbatim>\<open>node\<close> element of the UI dump: its attributes (\<^verbatim>\<open>node.attrib\<close>, all strings) and
  the structural path that the XML library gives for it
  (\<^verbatim>\<open>element.getroottree().getpath(element)\<close>, for instance \<^verbatim>\<open>/hierarchy/node[2]\<close>).
\<close>

record xml_node =
  n_attrib :: "string \<rightharpoonup> string"
  n_path :: string

text \<open>\<^verbatim>\<open>node.attrib.get(key, default)\<close> and \<^verbatim>\<open>element.get(key, default)\<close>\<close>

definition attrib_get :: "xml_node \<Rightarrow> string \<Rightarrow> string \<Rightarrow> string" where
  "attrib_get node key dflt = (case n_attrib node key of None \<Rightarrow> dflt | Some v \<Rightarrow> v)"

text \<open>
  String methods: \<^verbatim>\<open>s.replace(old, new)\<close>, \<^verbatim>\<open>s.split(sep)\<close> for a separator of one
  character, and \<^verbatim>\<open>s.strip()\<close> (the whitespace characters below 256).
\<close>

function str_replace :: "string \<Rightarrow> string \<Rightarrow> string \<Rightarrow> string" where
  "str_replace old new [] = (if old = [] then new else [])"
| "str_replace old new (c # cs) =
     (if starts_with old (c # cs)
      then new @ (if old = [] then c # str_replace old new cs
                  else str_replace old new (drop (length old - 1) cs))
      else c # str_replace old new cs)"
  by pat_completeness auto
termination
  by (relation "measure (\<lambda>(old, new, s). length s)") auto

fun split_on :: "char \<Rightarrow> string \<Rightarrow> string list" where
  "split_on sep [] = [[]]"
| "split_on sep (c # cs) =
     (if c = sep then [] # split_on sep cs
      else (case split_on sep cs of
              [] \<Rightarrow> [[c]]
            | part # parts \<Rightarrow> (c # part) # parts))"

definition is_space :: "char \<Rightarrow> bool" where
  "is_space c =
     ((of_char c :: nat) \<in> {9, 10, 11, 12, 13, 28, 29, 30, 31, 32, 133, 160})"

definition strip :: "string \<Rightarrow> string" where
  "strip s = rev (dropWhile is_space (rev (dropWhile is_space s)))"

text \<open>
  \<^verbatim>\<open>
  def parse_bounds(self, bounds_str):
      try:
          parts = bounds_str.replace("][", ",").replace("[", "").replace("]", "").split(",")
          x1, y1, x2, y2 = map(int, parts)
          x1, x2 = min(x1, x2), max(x1, x2)
          y1, y2 = min(y1, y2), max(y1, y2)
          return (x1, y1, x2, y2)
      except:
          return None
  \<close>
  The builtin \<^verbatim>\<open>int\<close> on strings is the parameter \<open>to_int\<close> (\<open>None\<close> when it raises
  \<^verbatim>\<open>ValueError\<close>). The unpacking raises \<^verbatim>\<open>ValueError\<close> unless there are exactly four
  parts. Every exception gives \<^verbatim>\<open>None\<close>.
\<close>

definition parse_bounds :: "(string \<Rightarrow> int option) \<Rightarrow> string \<Rightarrow> rect option" where
  "parse_bounds to_int bounds_str =
     (let parts = split_on (CHR '','')
                    (str_replace '']'' [] (str_replace ''['' [] (str_replace ''][''  '','' bounds_str)))
      in case parts of
           [p1, p2, p3, p4] \<Rightarrow>
             (case to_int p1 of None \<Rightarrow> None | Some x1 \<Rightarrow>
              case to_int p2 of None \<Rightarrow> None | Some y1 \<Rightarrow>
              case to_int p3 of None \<Rightarrow> None | Some x2 \<Rightarrow>
              case to_int p4 of None \<Rightarrow> None | Some y2 \<Rightarrow>
                Some (min x1 x2, min y1 y2, max x1 x2, max y1 y2))
         | _ \<Rightarrow> None)"

text \<open>
  \<^verbatim>\<open>
  def get_formatted_xpath(self, element):
      try:
          standard_xpath = element.getroottree().getpath(element)
          class_name = element.get('class', '').split('.')[-1]
          text = element.get('text', '')
          content_desc = element.get('content-desc', '')
          resource_id = element.get('resource-id', '')
          if resource_id:
              return "//" + class_name + "[@resource-id='" + resource_id + "']"
          elif content_desc:
              return "//" + class_name + "[@content-desc='" + content_desc + "']"
          elif text:
              return "//" + class_name + "[@text='" + text + "']"
          else:
              return standard_xpath
      except Exception as e:
          print("XPath generation error: " + str(e))
          return ""
  \<close>
  Nothing in the body raises on a node of a parsed tree, so the handler is not modelled.
\<close>

definition get_formatted_xpath :: "xml_node \<Rightarrow> string" where
  "get_formatted_xpath element =
     (let standard_xpath = n_path element;
          class_name = last (split_on (CHR ''.'') (attrib_get element ''class'' []));
          text = attrib_get element ''text'' [];
          content_desc = attrib_get element ''content-desc'' [];
          resource_id = attrib_get element ''resource-id'' []
      in if resource_id \<noteq> [] then
           ''//'' @ class_name @ ''[@resource-id='' @ [CHR 0x27] @ resource_id @ [CHR 0x27] @ '']''
         else if content_desc \<noteq> [] then
           ''//'' @ class_name @ ''[@content-desc='' @ [CHR 0x27] @ content_desc @ [CHR 0x27] @ '']''
         else if text \<noteq> [] then
           ''//'' @ class_name @ ''[@text='' @ [CHR 0x27] @ text @ [CHR 0x27] @ '']''
         else standard_xpath)"

text \<open>
  The first pass of \<^verbatim>\<open>analyze_accessibility\<close>, for one node:
  \<^verbatim>\<open>
  bounds_str = node.attrib.get("bounds")
  coords = self.parse_bounds(bounds_str) if bounds_str else None
  element_data = {
      "node": node,
      "bounds": coords,
      "text": node.attrib.get("text", "").strip(),
      "content_desc": node.attrib.get("content-desc", "").strip(),
      "clickable": node.attrib.get("clickable", "false") == "true",
      "focusable": node.attrib.get("focusable", "false") == "true",
      "long_clickable": node.attrib.get("long-clickable", "false") == "true",
      "checkable": node.attrib.get("checkable", "false") == "true",
      "checked": node.attrib.get("checked", "false") == "true",
      "class": node.attrib.get("class", ""),
      "resource_id": node.attrib.get("resource-id", ""),
      "package": node.attrib.get("package", ""),
      "xpath": self.get_formatted_xpath(node) if coords else ""
  }
  \<close>
  A string is true when it is not empty, and a 4-tuple is always true.
\<close>

definition node_coords :: "(string \<Rightarrow> int option) \<Rightarrow> xml_node \<Rightarrow> rect option" where
  "node_coords to_int node =
     (case n_attrib node ''bounds'' of
        None \<Rightarrow> None
      | Some bounds_str \<Rightarrow> if bounds_str \<noteq> [] then parse_bounds to_int bounds_str else None)"

definition element_data :: "(string \<Rightarrow> int option) \<Rightarrow> xml_node \<Rightarrow> element" where
  "element_data to_int node =
     (let coords = node_coords to_int node
      in \<lparr>e_bounds = coords,
          e_text = strip (attrib_get node ''text'' []),
          e_content_desc = strip (attrib_get node ''content-desc'' []),
          e_clickable = (attrib_get node ''clickable'' ''false'' = ''true''),
          e_focusable = (attrib_get node ''focusable'' ''false'' = ''true''),
          e_long_clickable = (attrib_get node ''long-clickable'' ''false'' = ''true''),
          e_checkable = (attrib_get node ''checkable'' ''false'' = ''true''),
          e_checked = (attrib_get node ''checked'' ''false'' = ''true''),
          e_class = attrib_get node ''class'' [],
          e_resource_id = attrib_get node ''resource-id'' [],
          e_package = attrib_get node ''package'' [],
          e_xpath = (if coords \<noteq> None then get_formatted_xpath node else [])\<rparr>)"

text \<open>
  The identity path as the specification words it: the first of resource id,
  accessible description and visible text that is not empty, else the structural path.
\<close>

definition spec_locator :: "string \<Rightarrow> string \<Rightarrow> string \<Rightarrow> string" where
  "spec_locator class_name attribute v =
     ''//'' @ class_name @ ''[@'' @ attribute @ ''='' @ [CHR 0x27] @ v @ [CHR 0x27] @ '']''"

definition spec_identity_path :: "xml_node \<Rightarrow> string" where
  "spec_identity_path node =
     (let class_name = last (split_on (CHR ''.'') (attrib_get node ''class'' []))
      in if attrib_get node ''resource-id'' [] \<noteq> []
         then spec_locator class_name ''resource-id'' (attrib_get node ''resource-id'' [])
         else if attrib_get node ''content-desc'' [] \<noteq> []
         then spec_locator class_name ''content-desc'' (attrib_get node ''content-desc'' [])
         else if attrib_get node ''text'' [] \<noteq> []
         then spec_locator class_name ''text'' (attrib_get node ''text'' [])
         else n_path node)"

definition has_identity :: "xml_node \<Rightarrow> bool" where
  "has_identity node =
     (attrib_get node ''resource-id'' [] \<noteq> [] \<or> attrib_get node ''content-desc'' [] \<noteq> []
      \<or> attrib_get node ''text'' [] \<noteq> [])"

text \<open>
  An instance of \<open>to_int\<close> for concrete inputs: \<^verbatim>\<open>int\<close> on a string of characters
  below 256. \<^verbatim>\<open>int\<close> drops the whitespace around the number (the characters 9 to 13,
  32, 133 and 160), reads an optional sign and then decimal digits, where one underscore
  may stand between two digits, and raises \<^verbatim>\<open>ValueError\<close> on anything else, and also
  when there are more than 4300 digits (the default limit of CPython since 3.11).
\<close>

definition is_int_space :: "char \<Rightarrow> bool" where
  "is_int_space c = ((of_char c :: nat) \<in> {9, 10, 11, 12, 13, 32, 133, 160})"

definition digit_value :: "char \<Rightarrow> nat option" where
  "digit_value c =
     (let n = (of_char c :: nat) in if 48 \<le> n \<and> n \<le> 57 then Some (n - 48) else None)"

fun decimal_digits :: "string \<Rightarrow> nat \<Rightarrow> nat option" where
  "decimal_digits [] acc = Some acc"
| "decimal_digits [c] acc =
     (case digit_value c of None \<Rightarrow> None | Some d \<Rightarrow> Some (10 * acc + d))"
| "decimal_digits (c # c' # cs) acc =
     (if c = CHR ''_'' then
        (case digit_value c' of
           None \<Rightarrow> None
         | Some d \<Rightarrow> decimal_digits cs (10 * acc + d))
      else
        (case digit_value c of
           None \<Rightarrow> None
         | Some d \<Rightarrow> decimal_digits (c' # cs) (10 * acc + d)))"

definition decimal_nat :: "string \<Rightarrow> nat option" where
  "decimal_nat s =
     (if 4300 < length (filter (\<lambda>c. digit_value c \<noteq> None) s) then None
      else case s of
             [] \<Rightarrow> None
           | c # cs \<Rightarrow> (case digit_value c of None \<Rightarrow> None | Some d \<Rightarrow> decimal_digits cs d))"

definition decimal :: "string \<Rightarrow> int option" where
  "decimal s =
     (case rev (dropWhile is_int_space (rev (dropWhile is_int_space s))) of
        [] \<Rightarrow> None
      | c # cs \<Rightarrow>
          if c = CHR ''-'' then map_option (\<lambda>n. - int n) (decimal_nat cs)
          else if c = CHR ''+'' then map_option int (decimal_nat cs)
          else map_option int (decimal_nat (c # cs)))"

text \<open>
  Concrete inputs: a button node with a resource id and a text, with and without the
  \<^verbatim>\<open>bounds\<close> attribute.
\<close>

definition button_node_without_bounds :: xml_node where
  "button_node_without_bounds =
     \<lparr>n_attrib = [''class'' \<mapsto> ''android.widget.Button'', ''resource-id'' \<mapsto> ''id/ok'',
                  ''text'' \<mapsto> ''OK'', ''clickable'' \<mapsto> ''true''],
      n_path = ''/hierarchy/node[2]''\<rparr>"

definition button_node :: xml_node where
  "button_node =
     button_node_without_bounds
       \<lparr>n_attrib := (n_attrib button_node_without_bounds)(''bounds'' \<mapsto> ''[0,96][540,180]'')\<rparr>"

section \<open>Properties\<close>

subsection \<open>Overlap test\<close>

text \<open>
  Claim C3, as stated, at the rectangles the specification names: \<open>[0,0,10,10]\<close> and
  \<open>[10,0,20,10]\<close> share only the edge \<open>x = 10\<close>, and the specification expects
  \<^verbatim>\<open>elements_overlap\<close> to return false. The code returns true: \<open>x2 < x3\<close> is
  \<open>10 < 10\<close>, which is false, so the x-intervals count as intersecting.
\<close>

theorem elements_overlap_touching_counterexample:
  "elements_overlap (0, 0, 10, 10) (10, 0, 20, 10) = True"
  by simp

text \<open>
  Claim C3, amended: \<^verbatim>\<open>elements_overlap\<close> is symmetric for all rectangle pairs, and it
  is the closed-interval test: it returns true exactly when the x-intervals \<open>[x1,x2]\<close>,
  \<open>[x3,x4]\<close> and the y-intervals \<open>[y1,y2]\<close>, \<open>[y3,y4]\<close> share at least one point. So two
  rectangles that touch along a shared vertical edge (\<open>x2 = x3\<close>, y-intervals
  intersecting) are reported as overlapping.
\<close>

theorem elements_overlap_closed_symmetric:
  "elements_overlap r1 r2 = elements_overlap r2 r1
   \<and> (elements_overlap (x1, y1, x2, y2) (x3, y3, x4, y4)
        \<longleftrightarrow> (x3 \<le> x2 \<and> x1 \<le> x4) \<and> (y3 \<le> y2 \<and> y1 \<le> y4))
   \<and> (a2 = a3 \<and> a1 \<le> a2 \<and> a3 \<le> a4 \<and> b3 \<le> b2 \<and> b1 \<le> b4
        \<longrightarrow> elements_overlap (a1, b1, a2, b2) (a3, b3, a4, b4))"
proof -
  obtain p1 q1 p2 q2 where r1: "r1 = (p1, q1, p2, q2)"
    by (cases r1) auto
  obtain p3 q3 p4 q4 where r2: "r2 = (p3, q3, p4, q4)"
    by (cases r2) auto
  have sym: "elements_overlap r1 r2 = elements_overlap r2 r1"
    unfolding r1 r2 by (simp add: Let_def) linarith
  have closed: "elements_overlap (x1, y1, x2, y2) (x3, y3, x4, y4)
        \<longleftrightarrow> (x3 \<le> x2 \<and> x1 \<le> x4) \<and> (y3 \<le> y2 \<and> y1 \<le> y4)"
    by (simp add: Let_def not_less)
  have touch: "a2 = a3 \<and> a1 \<le> a2 \<and> a3 \<le> a4 \<and> b3 \<le> b2 \<and> b1 \<le> b4
        \<longrightarrow> elements_overlap (a1, b1, a2, b2) (a3, b3, a4, b4)"
    by (simp add: Let_def not_less)
  from sym closed touch show ?thesis by blast
qed

theorem elements_overlap_closed_symmetric_witness:
  "elements_overlap (0, 0, 10, 10) (10, 0, 20, 10)
     = elements_overlap (10, 0, 20, 10) (0, 0, 10, 10)
   \<and> ((10::int) = 10 \<and> (0::int) \<le> 10 \<and> (10::int) \<le> 20 \<and> (0::int) \<le> 10 \<and> (0::int) \<le> 10)
   \<and> elements_overlap (0, 0, 10, 10) (10, 0, 20, 10)"
proof -
  have h: "(10::int) = 10 \<and> (0::int) \<le> 10 \<and> (10::int) \<le> 20 \<and> (0::int) \<le> 10 \<and> (0::int) \<le> 10"
    by simp
  note t = elements_overlap_closed_symmetric
    [of "(0, 0, 10, 10)" "(10, 0, 20, 10)" 0 0 10 10 10 0 20 10 10 10 0 20 0 10 0 10]
  from t have s: "elements_overlap (0, 0, 10, 10) (10, 0, 20, 10)
     = elements_overlap (10, 0, 20, 10) (0, 0, 10, 10)"
    by blast
  from t h have o: "elements_overlap (0, 0, 10, 10) (10, 0, 20, 10)"
    by blast
  from s h o show ?thesis by blast
qed

subsection \<open>Scoring\<close>

lemma summarize_counts:
  "\<forall>i \<in> set xs. hashable (f_priority i) \<Longrightarrow>
   summarize xs s =
     Inr \<lparr>critical = critical s + count_of ''critical'' xs,
          high = high s + count_of ''high'' xs,
          medium = medium s + count_of ''medium'' xs,
          low = low s + count_of ''low'' xs\<rparr>"
  by (induction xs arbitrary: s) (simp_all add: count_priority_def count_of_def)

lemma count_priority_hashable: "hashable p \<Longrightarrow> \<exists>s'. count_priority p s = Inr s'"
  by (simp add: count_priority_def)

lemma summarize_unhashable:
  "\<exists>i \<in> set xs. \<not> hashable (f_priority i) \<Longrightarrow> summarize xs s = Inl TypeError"
proof (induction xs arbitrary: s)
  case Nil
  then show ?case by simp
next
  case (Cons x xs)
  show ?case
  proof (cases "hashable (f_priority x)")
    case True
    then obtain s' where s': "count_priority (f_priority x) s = Inr s'"
      using count_priority_hashable by blast
    from True Cons.prems have "\<exists>i \<in> set xs. \<not> hashable (f_priority i)" by auto
    then have "summarize xs s' = Inl TypeError" by (rule Cons.IH)
    then show ?thesis using s' by simp
  next
    case False
    then show ?thesis by (simp add: count_priority_def)
  qed
qed

lemma weight_nonneg: "0 \<le> weight p"
  by (simp add: weight_def)

lemma total_weight_nonneg: "0 \<le> total_weight xs"
  unfolding total_weight_def by (induction xs) (simp_all add: weight_nonneg)

lemma total_weight_counts:
  "total_weight xs =
     3 * of_nat (count_of ''critical'' xs) + 2 * of_nat (count_of ''high'' xs)
       + of_nat (count_of ''medium'' xs) + of_nat (count_of ''low'' xs) / 2"
  unfolding total_weight_def count_of_def
  by (induction xs) (simp_all add: weight_def algebra_simps)

lemma total_weight_mset:
  "total_weight xs = sum_mset (image_mset (\<lambda>i. weight (f_priority i)) (mset xs))"
  unfolding total_weight_def by (induction xs) simp_all




text \<open>
  On findings with hashable priorities the loop and the formula of the code give the
  score of the specification; with an unhashable priority they raise.
\<close>

lemma audit_score_hashable:
  assumes "\<forall>i \<in> set xs. hashable (f_priority i)"
  shows "audit_score xs = Inr (spec_score xs)"
proof -
  have s: "summarize xs \<lparr>critical = 0, high = 0, medium = 0, low = 0\<rparr>
            = Inr \<lparr>critical = count_of ''critical'' xs, high = count_of ''high'' xs,
                   medium = count_of ''medium'' xs, low = count_of ''low'' xs\<rparr>"
    using summarize_counts [OF assms] by simp
  have ws: "weighted_sum \<lparr>critical = count_of ''critical'' xs, high = count_of ''high'' xs,
                          medium = count_of ''medium'' xs, low = count_of ''low'' xs\<rparr>
              = total_weight xs"
    by (simp add: weighted_sum_def total_weight_counts)
  show ?thesis
  proof (cases "xs = []")
    case True
    then show ?thesis by (simp add: audit_score_def spec_score_def)
  next
    case False
    then have len: "0 < length xs" by simp
    have "0 \<le> total_weight xs / of_nat (length xs) * 20"
      using total_weight_nonneg [of xs] by simp
    then have "py_int (total_weight xs / of_nat (length xs) * 20)
                 = \<lfloor>total_weight xs / of_nat (length xs) * 20\<rfloor>"
      by (simp add: py_int_def)
    moreover have "max (length xs) 1 = length xs" using len by arith
    ultimately show ?thesis
      using False by (simp add: audit_score_def Let_def s ws spec_score_def)
  qed
qed

lemma audit_score_unhashable:
  "\<exists>i \<in> set xs. \<not> hashable (f_priority i) \<Longrightarrow> audit_score xs = Inl TypeError"
  by (simp add: audit_score_def summarize_unhashable)

lemma audit_score_Inr_hashable:
  assumes "audit_score xs = Inr a"
  shows "\<forall>i \<in> set xs. hashable (f_priority i)"
proof (rule ccontr)
  assume "\<not> (\<forall>i \<in> set xs. hashable (f_priority i))"
  then have "\<exists>i \<in> set xs. \<not> hashable (f_priority i)" by simp
  then have "audit_score xs = Inl TypeError" by (rule audit_score_unhashable)
  with assms show False by simp
qed


lemma spec_score_bounds: "0 \<le> spec_score xs \<and> spec_score xs \<le> 100"
proof (cases "xs = []")
  case True
  then show ?thesis by (simp add: spec_score_def)
next
  case False
  have "0 \<le> total_weight xs / of_nat (length xs) * 20"
    using total_weight_nonneg [of xs] by simp
  then have "0 \<le> \<lfloor>total_weight xs / of_nat (length xs) * 20\<rfloor>" by simp
  then show ?thesis using False by (simp add: spec_score_def)
qed

lemma spec_score_antimono:
  assumes "xs \<noteq> []" and "ys \<noteq> []"
    and "total_weight xs / of_nat (length xs) \<le> total_weight ys / of_nat (length ys)"
  shows "spec_score ys \<le> spec_score xs"
proof -
  from assms(3)
  have "total_weight xs / of_nat (length xs) * 20 \<le> total_weight ys / of_nat (length ys) * 20"
    by (rule mult_right_mono) simp
  then have "\<lfloor>total_weight xs / of_nat (length xs) * 20\<rfloor>
               \<le> \<lfloor>total_weight ys / of_nat (length ys) * 20\<rfloor>"
    by (rule floor_mono)
  moreover have "spec_score xs = max 0 (100 - \<lfloor>total_weight xs / of_nat (length xs) * 20\<rfloor>)"
    using assms(1) by (simp only: spec_score_def if_False)
  moreover have "spec_score ys = max 0 (100 - \<lfloor>total_weight ys / of_nat (length ys) * 20\<rfloor>)"
    using assms(2) by (simp only: spec_score_def if_False)
  ultimately show ?thesis by linarith
qed







text \<open>
  Claim C2, as stated, fails: with \<open>A\<close> one critical finding and \<open>B\<close> that finding plus
  one medium finding, \<open>A\<close> scores \<open>100 - int((3.0 / 1) * 20) = 40\<close> and \<open>B\<close> scores
  \<open>100 - int((4.0 / 2) * 20) = 60\<close>. The score depends on the mean weight, and a finding
  lighter than the mean raises it.
\<close>

theorem score_monotonicity_counterexample:
  "mset [sample_finding ''critical'', sample_finding ''medium'']
     = mset [sample_finding ''critical''] + mset [sample_finding ''medium'']
   \<and> f_priority (sample_finding ''medium'') = VStr ''medium''
   \<and> audit_score [sample_finding ''critical''] = Inr 40
   \<and> audit_score [sample_finding ''critical'', sample_finding ''medium''] = Inr 60
   \<and> (40 :: int) < 60"
  by (simp add: audit_score_def sample_finding_def count_priority_def hashable_def
      weighted_sum_def py_int_def)

lemma mean_le_mean_added:
  fixes a c n m :: rat
  assumes "0 < n" and "0 \<le> m" and "a * m \<le> c * n"
  shows "a / n \<le> (a + c) / (n + m)"
proof -
  have "a * (n + m) \<le> (a + c) * n"
    using assms(3) by (simp add: algebra_simps)
  moreover have "0 < n + m" using assms(1,2) by simp
  ultimately show ?thesis
    using assms(1) by (simp add: field_simps)
qed

lemma total_weight_added:
  "\<forall>x \<in> set C. a \<le> weight (f_priority x) * n
     \<Longrightarrow> a * of_nat (length C) \<le> total_weight C * n"
  by (induction C) (simp_all add: total_weight_def algebra_simps)

text \<open>
  Claim C2, amended: let \<open>B\<close> consist of the findings of \<open>A\<close> and the added findings
  \<open>C\<close>, in any order, all with hashable priorities (with an unhashable one the
  computation raises and there is no score to compare). If the weight of every added
  finding (critical 3, high 2, medium 1, low 0.5, anything else 0) is at least the mean
  weight of the findings of \<open>A\<close>, that is \<open>total_weight A \<le> weight x * length A\<close>, then
  both lists have a score and the score of \<open>B\<close> is at most the score of \<open>A\<close>. This
  always holds when \<open>A\<close> is empty, and when every added finding is critical.
\<close>

theorem score_monotone_above_mean:
  assumes "mset B = mset A + mset C"
    and "\<forall>x \<in> set C. total_weight A \<le> weight (f_priority x) * of_nat (length A)"
    and "\<forall>x \<in> set B. hashable (f_priority x)"
  shows "\<exists>a b. audit_score A = Inr a \<and> audit_score B = Inr b \<and> b \<le> a"
proof -
  from assms(1) have "set_mset (mset B) = set_mset (mset A + mset C)" by simp
  then have "set B = set A \<union> set C" by simp
  with assms(3) have hA: "\<forall>x \<in> set A. hashable (f_priority x)" by blast
  have a: "audit_score A = Inr (spec_score A)" using hA by (rule audit_score_hashable)
  have b: "audit_score B = Inr (spec_score B)" using assms(3) by (rule audit_score_hashable)
  have "spec_score B \<le> spec_score A"
  proof (cases "A = []")
    case True
    then show ?thesis
      using spec_score_bounds [of B] by (simp add: spec_score_def)
  next
    case False
    from assms(1) have "size (mset B) = size (mset A) + size (mset C)" by simp
    then have len: "length B = length A + length C" by simp
    with False have B: "B \<noteq> []" by auto
    have tw: "total_weight B = total_weight A + total_weight C"
      by (simp add: total_weight_mset assms(1))
    have "total_weight A / of_nat (length A)
            \<le> (total_weight A + total_weight C) / (of_nat (length A) + of_nat (length C))"
      using False total_weight_added [OF assms(2)]
      by (intro mean_le_mean_added) simp_all
    then have "total_weight A / of_nat (length A) \<le> total_weight B / of_nat (length B)"
      by (simp add: tw len)
    with False B show ?thesis by (intro spec_score_antimono)
  qed
  with a b show ?thesis by blast
qed

text \<open>
  Adding a high finding to one low and one medium finding (mean weight 0.75) does not
  raise the score.
\<close>

theorem score_monotone_above_mean_witness:
  "mset [sample_finding ''low'', sample_finding ''high'', sample_finding ''medium'']
     = mset [sample_finding ''low'', sample_finding ''medium''] + mset [sample_finding ''high'']
   \<and> total_weight [sample_finding ''low'', sample_finding ''medium'']
        \<le> weight (f_priority (sample_finding ''high''))
            * of_nat (length [sample_finding ''low'', sample_finding ''medium''])
   \<and> hashable (f_priority (sample_finding ''low''))
   \<and> hashable (f_priority (sample_finding ''high''))
   \<and> hashable (f_priority (sample_finding ''medium''))
   \<and> (\<exists>a b. audit_score [sample_finding ''low'', sample_finding ''medium''] = Inr a
          \<and> audit_score [sample_finding ''low'', sample_finding ''high'', sample_finding ''medium'']
              = Inr b
          \<and> b \<le> a)"
proof -
  have h1: "mset [sample_finding ''low'', sample_finding ''high'', sample_finding ''medium'']
     = mset [sample_finding ''low'', sample_finding ''medium''] + mset [sample_finding ''high'']"
    by simp
  have h3: "total_weight [sample_finding ''low'', sample_finding ''medium'']
        \<le> weight (f_priority (sample_finding ''high''))
            * of_nat (length [sample_finding ''low'', sample_finding ''medium''])"
    by (simp add: total_weight_def weight_def sample_finding_def)
  then have h2: "\<forall>x \<in> set [sample_finding ''high''].
         total_weight [sample_finding ''low'', sample_finding ''medium'']
           \<le> weight (f_priority x)
               * of_nat (length [sample_finding ''low'', sample_finding ''medium''])"
    by simp
  have hs: "hashable (f_priority (sample_finding ''low''))"
    "hashable (f_priority (sample_finding ''high''))"
    "hashable (f_priority (sample_finding ''medium''))"
    by (simp_all add: hashable_def sample_finding_def)
  then have h4: "\<forall>x \<in> set [sample_finding ''low'', sample_finding ''high'', sample_finding ''medium''].
          hashable (f_priority x)"
    by simp
  from h1 h3 hs score_monotone_above_mean [OF h1 h2 h4] show ?thesis by blast
qed

subsection \<open>Deduplication\<close>

text \<open>
  When the loop returns, it has appended findings whose keys exist, are pairwise
  different and were not seen before; on such a list the loop appends everything.
\<close>

lemma dedup_loop_result:
  "dedup_loop xs u s = Inr r \<Longrightarrow>
     \<exists>ys. r = u @ ys
        \<and> distinct (map dedup_key ys)
        \<and> (\<forall>y \<in> set ys. \<exists>k. dedup_key y = Inr k \<and> k \<notin> s)"
proof (induction xs arbitrary: u s)
  case Nil
  then show ?case by simp
next
  case (Cons i xs)
  from Cons.prems obtain key where key: "dedup_key i = Inr key"
    by (cases "dedup_key i") simp_all
  show ?case
  proof (cases "key \<in> s")
    case True
    with Cons.prems key have "dedup_loop xs u s = Inr r" by simp
    from Cons.IH [OF this] show ?thesis .
  next
    case False
    with Cons.prems key have "dedup_loop xs (u @ [i]) (insert key s) = Inr r" by simp
    from Cons.IH [OF this] obtain ys where ys: "r = (u @ [i]) @ ys"
      "distinct (map dedup_key ys)"
      "\<forall>y \<in> set ys. \<exists>k. dedup_key y = Inr k \<and> k \<notin> insert key s"
      by blast
    have fresh: "dedup_key i \<notin> set (map dedup_key ys)"
      using ys(3) key by auto
    have 1: "r = u @ (i # ys)" using ys(1) by simp
    have 2: "distinct (map dedup_key (i # ys))" using ys(2) fresh by simp
    have 3: "\<forall>y \<in> set (i # ys). \<exists>k. dedup_key y = Inr k \<and> k \<notin> s"
    proof
      fix y assume "y \<in> set (i # ys)"
      then consider "y = i" | "y \<in> set ys" by auto
      then show "\<exists>k. dedup_key y = Inr k \<and> k \<notin> s"
      proof cases
        case 1
        with key False show ?thesis by blast
      next
        case 2
        with ys(3) obtain k where "dedup_key y = Inr k" "k \<notin> insert key s" by blast
        then show ?thesis by blast
      qed
    qed
    from 1 2 3 show ?thesis by blast
  qed
qed

lemma dedup_loop_fixed:
  "distinct (map dedup_key ys) \<Longrightarrow>
   \<forall>y \<in> set ys. \<exists>k. dedup_key y = Inr k \<and> k \<notin> s \<Longrightarrow>
   dedup_loop ys u s = Inr (u @ ys)"
proof (induction ys arbitrary: u s)
  case Nil
  then show ?case by simp
next
  case (Cons y ys)
  from Cons.prems(2) obtain k where k: "dedup_key y = Inr k" "k \<notin> s" by auto
  have d: "distinct (map dedup_key ys)" using Cons.prems(1) by simp
  have "\<forall>z \<in> set ys. \<exists>k'. dedup_key z = Inr k' \<and> k' \<notin> insert k s"
  proof
    fix z assume z: "z \<in> set ys"
    with Cons.prems(2) obtain k' where k': "dedup_key z = Inr k'" "k' \<notin> s" by auto
    from Cons.prems(1) z have "dedup_key y \<noteq> dedup_key z" by auto
    with k k' have "k' \<noteq> k" by auto
    with k' show "\<exists>k'. dedup_key z = Inr k' \<and> k' \<notin> insert k s" by auto
  qed
  from Cons.IH [OF d this] have "dedup_loop ys (u @ [y]) (insert k s) = Inr ((u @ [y]) @ ys)" .
  with k show ?case by simp
qed

text \<open>
  Claim C8: the deduplication pass is idempotent. For every finding list \<open>X\<close> on which
  the pass returns (no finding with bounds \<^verbatim>\<open>None\<close>), applying it to its own output
  returns that output unchanged.
\<close>

theorem deduplicate_idempotent:
  "deduplicate X = Inr Y \<Longrightarrow> deduplicate Y = Inr Y"
proof -
  assume "deduplicate X = Inr Y"
  then have "dedup_loop X [] {} = Inr Y" by (simp add: deduplicate_def)
  from dedup_loop_result [OF this] have
    "distinct (map dedup_key Y)" "\<forall>y \<in> set Y. \<exists>k. dedup_key y = Inr k \<and> k \<notin> {}"
    by auto
  from dedup_loop_fixed [OF this] show ?thesis by (simp add: deduplicate_def)
qed


text \<open>
  Two findings of one rule on the same bounds and a third of another rule: the second
  is dropped, and the result is a fixed point.
\<close>

theorem deduplicate_idempotent_witness:
  "deduplicate [located ''r'' (0, 0, 1, 1) ''a'', located ''r'' (0, 0, 1, 1) ''b'',
                located ''q'' (0, 0, 1, 1) ''c'']
     = Inr [located ''r'' (0, 0, 1, 1) ''a'', located ''q'' (0, 0, 1, 1) ''c'']
   \<and> deduplicate [located ''r'' (0, 0, 1, 1) ''a'', located ''q'' (0, 0, 1, 1) ''c'']
     = Inr [located ''r'' (0, 0, 1, 1) ''a'', located ''q'' (0, 0, 1, 1) ''c'']"
proof -
  have h: "deduplicate [located ''r'' (0, 0, 1, 1) ''a'', located ''r'' (0, 0, 1, 1) ''b'',
                located ''q'' (0, 0, 1, 1) ''c'']
     = Inr [located ''r'' (0, 0, 1, 1) ''a'', located ''q'' (0, 0, 1, 1) ''c'']"
    by (simp add: deduplicate_def dedup_key_def located_def)
  from h deduplicate_idempotent [OF h] show ?thesis by blast
qed

lemma dedup_loop_null:
  "i \<in> set issues \<Longrightarrow> f_bounds i = Null \<Longrightarrow> dedup_loop issues unique seen = Inl TypeError"
proof (induction issues arbitrary: unique seen)
  case Nil
  then show ?case by simp
next
  case (Cons j issues)
  show ?case
  proof (cases "dedup_key j")
    case (Inl e)
    then have "e = TypeError"
      by (auto simp: dedup_key_def split: bounds_entry.splits prod.splits)
    with Inl show ?thesis by simp
  next
    case (Inr key)
    with Cons.prems have "i \<noteq> j" by (auto simp: dedup_key_def)
    with Cons.prems have "i \<in> set issues" by simp
    from Cons.IH [OF this Cons.prems(2)] Inr show ?thesis by simp
  qed
qed

text \<open>
  Claim C1 says that the deduplication pass completes on a finding list that holds
  findings with bounds \<^verbatim>\<open>None\<close> and drops all of them but the first for each rule. The code
  does not: as soon as one finding of the list has bounds \<^verbatim>\<open>None\<close>, the pass raises
  \<^verbatim>\<open>TypeError\<close> and returns nothing.
\<close>

theorem deduplicate_null_bounds_raises:
  "i \<in> set issues \<Longrightarrow> f_bounds i = Null \<Longrightarrow> deduplicate issues = Inl TypeError"
  unfolding deduplicate_def by (rule dedup_loop_null)

text \<open>
  The failing input as the scanner produces it: two image nodes without bounds, text
  and description give two \<^verbatim>\<open>text-alternatives\<close> findings with bounds \<^verbatim>\<open>None\<close>, and the
  deduplication of these two findings raises.
\<close>

theorem deduplicate_null_bounds_raises_witness:
  "(\<exists>i1 i2. check_text_alternatives sample_rules [image_without_bounds, image_without_bounds]
               = Inr [i1, i2]
           \<and> f_rule i1 = f_rule i2 \<and> f_bounds i1 = Null \<and> f_bounds i2 = Null
           \<and> deduplicate [i1, i2] = Inl TypeError)"
proof -
  obtain i1 i2 where r:
    "check_text_alternatives sample_rules [image_without_bounds, image_without_bounds]
       = Inr [i1, i2]"
    and p: "f_rule i1 = f_rule i2" "f_bounds i1 = Null" "f_bounds i2 = Null"
    by (simp add: check_text_alternatives_def sample_rules_def image_without_bounds_def
          rule_priority_def entry_of_def)
  have "i1 \<in> set [i1, i2]" by simp
  from deduplicate_null_bounds_raises [OF this p(2)] r p show ?thesis by blast
qed

subsection \<open>Target size\<close>







subsection \<open>Focus order\<close>

lemma has_illogical_focus_order_above:
  "has_illogical_focus_order (focusable_at 0 500) (focusable_at 0 100) = Inr True"
  by (simp add: has_illogical_focus_order_def focusable_at_def)

lemma keys_of_bounds:
  "\<forall>e\<in>set es. e_bounds e \<noteq> None \<Longrightarrow> keys_of es = Some (map (\<lambda>e. the (focus_key e)) es)"
  by (induction es) (auto simp: focus_key_def split: option.splits)

lemma sort_by_position_sorted:
  assumes "\<forall>e\<in>set es. e_bounds e \<noteq> None"
  shows "\<exists>ys. sort_by_position es = Inr ys
              \<and> sorted (map (\<lambda>e. the (focus_key e)) ys)
              \<and> (\<forall>e\<in>set ys. e_bounds e \<noteq> None)"
proof -
  let ?k = "\<lambda>e. the (focus_key e)"
  let ?ps = "zip (map ?k es) es"
  let ?qs = "sort_key fst ?ps"
  have r: "sort_by_position es = Inr (map snd ?qs)"
    using keys_of_bounds [OF assms] by (simp add: sort_by_position_def)
  have p: "\<forall>q\<in>set ?ps. fst q = ?k (snd q) \<and> snd q \<in> set es"
    by (auto simp: set_zip)
  then have q: "\<forall>q\<in>set ?qs. fst q = ?k (snd q) \<and> snd q \<in> set es"
    by simp
  then have "map ?k (map snd ?qs) = map fst ?qs"
    by (simp add: map_eq_conv)
  moreover have "sorted (map fst ?qs)"
    by (rule sorted_sort_key)
  ultimately have s: "sorted (map ?k (map snd ?qs))"
    by (simp only:)
  have "\<forall>e\<in>set (map snd ?qs). e_bounds e \<noteq> None"
    using q assms by auto
  with r s show ?thesis by blast
qed

lemma focus_order_loop_sorted:
  "sorted (map (\<lambda>e. the (focus_key e)) es) \<Longrightarrow> \<forall>e\<in>set es. e_bounds e \<noteq> None
   \<Longrightarrow> focus_order_loop rules es issues = Inr issues"
proof (induction rules es issues rule: focus_order_loop.induct)
  case (1 rules prev_element curr_element remaining issues)
  obtain px1 py1 px2 py2 where p: "e_bounds prev_element = Some (px1, py1, px2, py2)"
    using "1.prems"(2) by (cases "e_bounds prev_element") auto
  obtain cx1 cy1 cx2 cy2 where c: "e_bounds curr_element = Some (cx1, cy1, cx2, cy2)"
    using "1.prems"(2) by (cases "e_bounds curr_element") auto
  have "(py1, px1) \<le> (cy1, cx1)"
    using "1.prems"(1) p c by (simp add: focus_key_def)
  then have "py1 \<le> cy1"
    by (auto simp: less_eq_prod_def)
  then have h: "has_illogical_focus_order prev_element curr_element = Inr False"
    using p c by (simp add: has_illogical_focus_order_def)
  have s: "sorted (map (\<lambda>e. the (focus_key e)) (curr_element # remaining))"
    using "1.prems"(1) by simp
  have b: "\<forall>e\<in>set (curr_element # remaining). e_bounds e \<noteq> None"
    using "1.prems"(2) by simp
  have "focus_order_loop rules (curr_element # remaining) issues = Inr issues"
    using "1.IH"(2) [OF h _ s b] by simp
  then show ?case using h by simp
qed simp_all

text \<open>
  Claim C9. For every rule catalog and every list of focusable elements,
  \<^verbatim>\<open>check_focus_order\<close> returns the empty list of findings: it does not raise, and after
  the sort by (top, left) the condition \<^verbatim>\<open>curr_bounds[1] < prev_bounds[1] - 100\<close> is false
  for every pair of consecutive elements.
\<close>

theorem check_focus_order_empty:
  "check_focus_order rules focusable_elements = Inr []"
proof -
  have "\<forall>e\<in>set (filter (\<lambda>e. e_bounds e \<noteq> None) focusable_elements). e_bounds e \<noteq> None"
    by simp
  from sort_by_position_sorted [OF this]
  obtain ys where ys: "sort_by_position (filter (\<lambda>e. e_bounds e \<noteq> None) focusable_elements) = Inr ys"
    "sorted (map (\<lambda>e. the (focus_key e)) ys)" "\<forall>e\<in>set ys. e_bounds e \<noteq> None"
    by blast
  show ?thesis
    using ys(1) focus_order_loop_sorted [OF ys(2) ys(3), of rules "[]"]
    by (simp add: check_focus_order_def)
qed

subsection \<open>Rule catalog\<close>

lemma load_rules_config_none:
  "load_rules_config default_rules fs NoConfig = Inr default_rules"
  by (simp add: load_rules_config_def)

lemma load_rules_config_missing_file:
  "fs path = NoSuchFile \<Longrightarrow> load_rules_config default_rules fs (Path path) = Inr default_rules"
  by (simp add: load_rules_config_def read_json_def)

lemma merge_loop_other:
  "rule_id \<notin> fst ` set items \<Longrightarrow> merge_loop items merged_rules rule_id = merged_rules rule_id"
  by (induction items arbitrary: merged_rules) (auto split: option.splits)

lemma merge_loop_entry:
  "distinct (map fst items) \<Longrightarrow> (rule_id, rule_config) \<in> set items \<Longrightarrow>
   merge_loop items merged_rules rule_id =
     (case merged_rules rule_id of
        Some existing \<Rightarrow> Some (existing ++ rule_config)
      | None \<Rightarrow> Some rule_config)"
proof (induction items arbitrary: merged_rules)
  case Nil
  then show ?case by simp
next
  case (Cons item items)
  obtain r c where item: "item = (r, c)" by (cases item)
  show ?case
  proof (cases "r = rule_id")
    case True
    then have "rule_id \<notin> fst ` set items" and "c = rule_config"
      using Cons.prems item by (auto simp: rev_image_eqI)
    then show ?thesis
      using True item by (simp add: merge_loop_other split: option.splits)
  next
    case False
    then have "(rule_id, rule_config) \<in> set items" and "distinct (map fst items)"
      using Cons.prems item by auto
    then show ?thesis
      using False item Cons.IH by (simp split: option.splits)
  qed
qed

text \<open>
  The merge, for a document read from a file or given directly: an entry whose id is in
  the defaults overlays the supplied fields and keeps the others, an entry whose id is
  not in the defaults is inserted as it is, and the other default rules are unchanged.
\<close>

lemma load_rules_config_merge:
  assumes "source = Given (JObject items) \<or> (source = Path path \<and> fs path = Json (JObject items))"
    and "distinct (map fst items)"
  shows "\<exists>merged. load_rules_config default_rules fs source = Inr merged
          \<and> (\<forall>rule_id. rule_id \<notin> fst ` set items \<longrightarrow> merged rule_id = default_rules rule_id)
          \<and> (\<forall>(rule_id, rule_config) \<in> set items.
                merged rule_id =
                  (case default_rules rule_id of
                     Some existing \<Rightarrow> Some (existing ++ rule_config)
                   | None \<Rightarrow> Some rule_config))"
proof -
  have "load_rules_config default_rules fs source = Inr (merge_loop items default_rules)"
    using assms(1) by (auto simp: load_rules_config_def read_json_def merge_rules_def)
  then show ?thesis
    using merge_loop_other merge_loop_entry [OF assms(2)] by auto
qed

text \<open>
  Claim C5. Loading the catalog from a path to a file that is not valid JSON does not
  return the default rules: \<^verbatim>\<open>json.load\<close> raises \<^verbatim>\<open>JSONDecodeError\<close>, the handler is
  for \<^verbatim>\<open>FileNotFoundError\<close> only, and the exception leaves \<^verbatim>\<open>load_rules_config\<close> (and
  the constructor that called it).
\<close>

theorem load_rules_config_invalid_json_raises:
  "fs path = NotJson \<Longrightarrow> load_rules_config default_rules fs (Path path) = Inl JSONDecodeError"
  by (simp add: load_rules_config_def read_json_def)

theorem load_rules_config_invalid_json_raises_witness:
  "broken_config_dir ''rules.json'' = NotJson
   \<and> load_rules_config sample_rules broken_config_dir (Path ''rules.json'') = Inl JSONDecodeError
   \<and> load_rules_config sample_rules broken_config_dir (Path ''rules.json'') \<noteq> Inr sample_rules"
proof -
  have h: "broken_config_dir ''rules.json'' = NotJson"
    by (simp add: broken_config_dir_def)
  show ?thesis
    using h load_rules_config_invalid_json_raises
            [of broken_config_dir "''rules.json''" sample_rules]
    by simp
qed

subsection \<open>Identity paths\<close>

text \<open>
  Claim C4, as stated, fails: a node with a resource id (and a text) but without a
  \<^verbatim>\<open>bounds\<close> attribute gets the empty string as its path.
\<close>

theorem identity_path_empty_without_bounds_counterexample:
  "has_identity button_node_without_bounds
   \<and> attrib_get button_node_without_bounds ''resource-id'' [] = ''id/ok''
   \<and> e_resource_id (element_data decimal button_node_without_bounds) = ''id/ok''
   \<and> e_bounds (element_data decimal button_node_without_bounds) = None
   \<and> e_xpath (element_data decimal button_node_without_bounds) = []"
  by (simp add: has_identity_def attrib_get_def button_node_without_bounds_def
      element_data_def node_coords_def)

lemma spec_locator_not_empty: "spec_locator class_name attribute v \<noteq> []"
  by (simp add: spec_locator_def)

lemma get_formatted_xpath_spec: "get_formatted_xpath node = spec_identity_path node"
  by (simp add: get_formatted_xpath_def spec_identity_path_def spec_locator_def Let_def)

text \<open>
  Claim C4, amended. For a node whose \<^verbatim>\<open>bounds\<close> attribute parses, the path of the
  element record is the one of the specification (resource id, then accessible
  description, then visible text, then the structural path), and it is not empty when
  the node has one of the three attributes. For a node whose bounds are missing or do
  not parse, the path is the empty string whatever its attributes are.
\<close>

theorem identity_path_with_bounds:
  "(node_coords to_int node \<noteq> None \<longrightarrow>
      e_xpath (element_data to_int node) = spec_identity_path node
      \<and> (has_identity node \<longrightarrow> e_xpath (element_data to_int node) \<noteq> []))
   \<and> (node_coords to_int node = None \<longrightarrow> e_xpath (element_data to_int node) = [])"
proof -
  have "spec_identity_path node \<noteq> []" if "has_identity node"
    using that by (auto simp: spec_identity_path_def has_identity_def spec_locator_not_empty Let_def)
  then show ?thesis
    by (simp add: element_data_def get_formatted_xpath_spec Let_def)
qed

lemma parse_bounds_button: "parse_bounds decimal ''[0,96][540,180]'' = Some (0, 96, 540, 180)"
  by code_simp

theorem identity_path_with_bounds_witness:
  "node_coords decimal button_node = Some (0, 96, 540, 180)
   \<and> has_identity button_node
   \<and> e_xpath (element_data decimal button_node)
       = ''//Button[@resource-id='' @ [CHR 0x27] @ ''id/ok'' @ [CHR 0x27] @ '']''"
proof -
  have c: "node_coords decimal button_node = Some (0, 96, 540, 180)"
    by (simp add: node_coords_def button_node_def parse_bounds_button)
  have h: "has_identity button_node"
    by (simp add: has_identity_def attrib_get_def button_node_def button_node_without_bounds_def)
  have s: "spec_identity_path button_node
           = ''//Button[@resource-id='' @ [CHR 0x27] @ ''id/ok'' @ [CHR 0x27] @ '']''"
    by code_simp
  show ?thesis
    using identity_path_with_bounds [of decimal button_node] c h s by simp
qed

end
